theory Spec2Isabelle
  imports Main "HOL-Library.Sublist"
begin

section \<open>JavaScript strings\<close>

text \<open>
  A string is the list of its UTF-16 code units. \<open>asc\<close> gives the code units of a
  literal written in the source; \<open>ascii\<close> holds of the strings whose code units are all
  below 128.
\<close>

type_synonym jsstring = "nat list"

definition asc :: "string \<Rightarrow> jsstring" where
  "asc s = map of_char s"

definition ascii :: "jsstring \<Rightarrow> bool" where
  "ascii s = list_all (\<lambda>c. c < 128) s"

definition lowerASCII :: "nat \<Rightarrow> nat" where
  "lowerASCII c = (if 65 \<le> c \<and> c \<le> 90 then c + 32 else c)"

definition upperASCII :: "nat \<Rightarrow> nat" where
  "upperASCII c = (if 97 \<le> c \<and> c \<le> 122 then c - 32 else c)"

text \<open>
  \<open>toLowerCase\<close> and \<open>toUpperCase\<close> are computed by the JavaScript runtime from the
  Unicode case tables, which are not part of the repository. They are a parameter of the
  model: a value of type \<open>unicode\<close> is a pair of conversions of which only this is
  known: on a string of ASCII code units they convert the letters A-Z and a-z code unit
  by code unit. Beyond ASCII nothing is assumed, neither that a code unit is converted to
  one code unit nor that converting up and then down gives the lower case.
\<close>

typedef unicode =
  "{(lo :: jsstring \<Rightarrow> jsstring, up :: jsstring \<Rightarrow> jsstring).
      \<forall>s. ascii s \<longrightarrow> lo s = map lowerASCII s \<and> up s = map upperASCII s}"
  by (rule exI[of _ "(map lowerASCII, map upperASCII)"]) simp

setup_lifting type_definition_unicode

lift_definition toLowerCase :: "unicode \<Rightarrow> jsstring \<Rightarrow> jsstring" is "\<lambda>(lo, up). lo" .

lift_definition toUpperCase :: "unicode \<Rightarrow> jsstring \<Rightarrow> jsstring" is "\<lambda>(lo, up). up" .

text \<open>
  One pair of conversions, for evaluation at concrete inputs. It follows the Unicode
  tables on ASCII, on the Latin-1 letters and on the code units U+0131 (dotless i) and
  U+017F (long s), whose capitals are the ASCII letters I and S; every other code unit is
  left as it is, so it is evaluated only on strings of those code units. The theorems
  are stated for every value of type \<open>unicode\<close>.
\<close>

definition lower_unit :: "nat \<Rightarrow> jsstring" where
  "lower_unit c =
     (if c < 128 then [lowerASCII c]
      else if 0xC0 \<le> c \<and> c \<le> 0xDE \<and> c \<noteq> 0xD7 then [c + 32]
      else [c])"

definition upper_unit :: "nat \<Rightarrow> jsstring" where
  "upper_unit c =
     (if c < 128 then [upperASCII c]
      else if c = 0xB5 then [0x39C]
      else if c = 0xDF then [0x53, 0x53]
      else if c = 0xFF then [0x178]
      else if 0xE0 \<le> c \<and> c \<le> 0xFE \<and> c \<noteq> 0xF7 then [c - 32]
      else if c = 0x131 then [0x49]
      else if c = 0x17F then [0x53]
      else [c])"

lift_definition sample_tables :: unicode is
  "(\<lambda>s. concat (map lower_unit s), \<lambda>s. concat (map upper_unit s))"
proof -
  have "concat (map lower_unit s) = map lowerASCII s \<and>
        concat (map upper_unit s) = map upperASCII s" if "ascii s" for s
    using that by (induction s) (simp_all add: ascii_def lower_unit_def upper_unit_def)
  then show ?thesis by simp
qed

text \<open>\<open>s.includes(q)\<close>: \<open>q\<close> occurs in \<open>s\<close> at some position.\<close>

fun includes_str :: "jsstring \<Rightarrow> jsstring \<Rightarrow> bool" where
  "includes_str [] q = (q = [])"
| "includes_str (c # cs) q = (prefix q (c # cs) \<or> includes_str cs q)"

text \<open>
  The code units that \<open>trim\<close> removes: the white space and line terminators of
  ECMAScript (tab, line feed, vertical tab, form feed, carriage return, space, no-break
  space, U+1680, U+2000 to U+200A, U+2028, U+2029, U+202F, U+205F, U+3000, U+FEFF).
\<close>

definition isWhiteSpace :: "nat \<Rightarrow> bool" where
  "isWhiteSpace c =
     ((9 \<le> c \<and> c \<le> 13) \<or> c = 32 \<or> c = 0xA0 \<or> c = 0x1680 \<or>
      (0x2000 \<le> c \<and> c \<le> 0x200A) \<or> c = 0x2028 \<or> c = 0x2029 \<or> c = 0x202F \<or>
      c = 0x205F \<or> c = 0x3000 \<or> c = 0xFEFF)"

definition trim :: "jsstring \<Rightarrow> jsstring" where
  "trim s = rev (dropWhile isWhiteSpace (rev (dropWhile isWhiteSpace s)))"

text \<open>
  \<open>s.split(sep)\<close> for a separator of one code unit: every occurrence of the separator
  ends a piece, so two separators in a row give an empty piece, and the empty string gives
  one empty piece.
\<close>

fun splitOn :: "nat \<Rightarrow> jsstring \<Rightarrow> jsstring list" where
  "splitOn sep [] = [[]]"
| "splitOn sep (c # cs) =
     (if c = sep then [] # splitOn sep cs
      else (case splitOn sep cs of [] \<Rightarrow> [[c]] | t # ts \<Rightarrow> (c # t) # ts))"

text \<open>\<open>xs.join(sep)\<close>.\<close>

fun join :: "jsstring \<Rightarrow> jsstring list \<Rightarrow> jsstring" where
  "join sep [] = []"
| "join sep [x] = x"
| "join sep (x # y # ys) = x @ sep @ join sep (y # ys)"

text \<open>The space character, the separator of \<open>split(' ')\<close> and \<open>join(' ')\<close>.\<close>

definition space :: nat where
  "space = 32"

section \<open>The project catalog (src/types/project.ts, src/data/projects.ts)\<close>

datatype ProjectDomain =
  Security | DataEngineering | WebDevelopment | Infrastructure | Research | Design

text \<open>The string each domain value is at run time.\<close>

fun domain_str :: "ProjectDomain \<Rightarrow> jsstring" where
  "domain_str Security = asc ''Security''"
| "domain_str DataEngineering = asc ''Data Engineering''"
| "domain_str WebDevelopment = asc ''Web Development''"
| "domain_str Infrastructure = asc ''Infrastructure''"
| "domain_str Research = asc ''Research''"
| "domain_str Design = asc ''Design''"

datatype ProjectType =
  OpenSource | Commercial | ResearchType | Learning | PublishedPackage

text \<open>The field \<open>type: ProjectType | ProjectType[]\<close>.\<close>

datatype type_field = Single ProjectType | Array "ProjectType list"

text \<open>
  The record keeps the fields that the filter engine and the command interpreter read to
  decide something. \<open>longDescription\<close>, \<open>features\<close>, \<open>stats\<close>, \<open>media\<close> and
  \<open>links\<close> are only rendered.
\<close>

record Project =
  id' :: jsstring
  title :: jsstring
  domain :: ProjectDomain
  type :: type_field
  description :: jsstring
  techStack :: "jsstring list"
  featured :: bool

text \<open>\<open>createProject\<close> with its defaults \<open>type = 'Open Source'\<close> and \<open>featured = false\<close>.\<close>

definition createProject ::
  "jsstring \<Rightarrow> jsstring \<Rightarrow> ProjectDomain \<Rightarrow> type_field option \<Rightarrow> jsstring \<Rightarrow> jsstring list
     \<Rightarrow> bool option \<Rightarrow> Project" where
  "createProject i t d ty descr stack feat =
     \<lparr> id' = i, title = t, domain = d,
       type = (case ty of None \<Rightarrow> Single OpenSource | Some v \<Rightarrow> v),
       description = descr, techStack = stack,
       featured = (case feat of None \<Rightarrow> False | Some b \<Rightarrow> b) \<rparr>"

definition projects :: "Project list" where
  "projects =
   [ createProject (asc ''owl-watch'') (asc ''Owl-Watch'') DataEngineering None
       (asc (''AWS-native data engineering pipeline using Glue, Bedrock, and M'' @
             ''L for ingesting, processing, and curating data with PySpark ETL jobs.''))
       (map asc [''Python'', ''TypeScript'', ''AWS CDK'', ''PySpark'', ''AWS Glue'',
                 ''Bedrock'']) None,
     createProject (asc ''lock-and-key'') (asc ''Lock-And-Key'') Security
       (Some (Array [OpenSource, PublishedPackage]))
       (asc (''Multi-cloud security scanner analyzing IAM and resource-based policies to '' @
             ''identify vulnerabilities and excessive permissions across AWS, Azure, and '' @
             ''GCP.''))
       (map asc [''Python'', ''AWS SDK'', ''Azure SDK'', ''GCP SDK'', ''Interactive CLI''])
       (Some True),
     createProject (asc ''horizonsec'') (asc ''HorizonSec Project'') Security None
       (asc (''Modular security toolkit integrating directly into developer workflows '' @
             ''with GAIA (orchestration), DEMETER (infrastructure scanning), HADES '' @
             ''(endpoint security), and ARTEMIS (static analysis).''))
       (map asc [''Python'', ''TypeScript'', ''Security Tools'', ''CI/CD Integration''])
       (Some True),
     createProject (asc ''the-data-packet'') (asc ''The-Data-Packet'') Research
       (Some (Single ResearchType))
       (asc ''Research project exploring data processing and analysis techniques.'')
       (map asc [''Python'', ''Data Analysis'']) None,
     createProject (asc ''thought-smith'') (asc ''thought-smith'') WebDevelopment None
       (asc (''Web development project showcasing modern frontend techniques and best '' @
             ''practices.''))
       (map asc [''TypeScript'', ''React'', ''Next.js'']) None,
     createProject (asc ''the-deployment-forge'') (asc ''The-Deployment-Forge'')
       Infrastructure None
       (asc ''Infrastructure automation and deployment tooling for modern cloud environments.'')
       (map asc [''Python'', ''Infrastructure as Code'', ''CI/CD'']) None,
     createProject (asc ''whomping-willow'') (asc ''Whomping-Willow'') WebDevelopment None
       (asc ''Web development project with modern UI/UX patterns.'')
       (map asc [''JavaScript'', ''React'']) None,
     createProject (asc ''hogwarts'') (asc ''Hogwarts'') WebDevelopment None
       (asc ''Web development project demonstrating full-stack capabilities.'')
       (map asc [''TypeScript'', ''React'', ''Node.js'']) None,
     createProject (asc ''netsecure'') (asc ''NetSecure'') Design
       (Some (Array [OpenSource]))
       (asc (''Security-focused design concept showcasing modern UI/UX for security '' @
             ''applications.''))
       (map asc [''Design'', ''UI/UX'']) None ]"

section \<open>The project filter engine (\<open>filteredProjects\<close> of the home page)\<close>

text \<open>
  The search test shared by the home page and the \<open>search\<close> command: the lower-cased
  title, description or some technology name contains the (already lower-cased) query.
\<close>

definition matchesSearch :: "unicode \<Rightarrow> jsstring \<Rightarrow> Project \<Rightarrow> bool" where
  "matchesSearch U query project =
     (includes_str (toLowerCase U (title project)) query \<or>
      includes_str (toLowerCase U (description project)) query \<or>
      list_ex (\<lambda>tech. includes_str (toLowerCase U tech) query) (techStack project))"

text \<open>\<open>Array.isArray(project.type) ? project.type : [project.type]\<close>.\<close>

definition projectTypes :: "Project \<Rightarrow> ProjectType list" where
  "projectTypes project = (case type project of Single t \<Rightarrow> [t] | Array ts \<Rightarrow> ts)"

text \<open>The callback given to \<open>projects.filter\<close>, with its three early returns.\<close>

definition keepProject ::
  "unicode \<Rightarrow> jsstring \<Rightarrow> ProjectDomain set \<Rightarrow> ProjectType set \<Rightarrow> Project \<Rightarrow> bool" where
  "keepProject U searchQuery selectedDomains selectedTypes project =
     (if searchQuery \<noteq> [] \<and> \<not> matchesSearch U (toLowerCase U searchQuery) project
      then False
      else if selectedDomains \<noteq> {} \<and> domain project \<notin> selectedDomains then False
      else if selectedTypes \<noteq> {} \<and>
              \<not> list_ex (\<lambda>t. t \<in> selectedTypes) (projectTypes project) then False
      else True)"

definition filteredProjects ::
  "unicode \<Rightarrow> Project list \<Rightarrow> jsstring \<Rightarrow> ProjectDomain set \<Rightarrow> ProjectType set
     \<Rightarrow> Project list" where
  "filteredProjects U catalog searchQuery selectedDomains selectedTypes =
     filter (keepProject U searchQuery selectedDomains selectedTypes) catalog"

text \<open>
  The three predicates as the specification words them. A case-insensitive substring is
  a contiguous part after both strings are lower-cased. The type values of a project are
  read from its \<open>type\<close> field: the one value, or the values of the array.
\<close>

definition ci_substring :: "unicode \<Rightarrow> jsstring \<Rightarrow> jsstring \<Rightarrow> bool" where
  "ci_substring U q s = sublist (toLowerCase U q) (toLowerCase U s)"

definition spec_query :: "unicode \<Rightarrow> jsstring \<Rightarrow> Project \<Rightarrow> bool" where
  "spec_query U q p =
     (q = [] \<or> ci_substring U q (title p) \<or> ci_substring U q (description p) \<or>
      (\<exists>tech \<in> set (techStack p). ci_substring U q tech))"

definition spec_domain :: "ProjectDomain set \<Rightarrow> Project \<Rightarrow> bool" where
  "spec_domain ds p = (ds = {} \<or> domain p \<in> ds)"

definition spec_type :: "ProjectType set \<Rightarrow> Project \<Rightarrow> bool" where
  "spec_type ts p =
     (ts = {} \<or>
      (case type p of Single t \<Rightarrow> t \<in> ts | Array vs \<Rightarrow> \<exists>t \<in> set vs. t \<in> ts))"

section \<open>The command interpreter (src/components/CLI.tsx)\<close>

text \<open>
  What a history entry shows. Each constructor is one of the JSX values the component
  builds, with the data it interpolates.
\<close>

datatype rendered =
    Welcome
  | HelpText
  | ProjectList "Project list" jsstring
  | Usage jsstring
  | NotFoundUseLs
  | ProjectDetails Project
  | NoProjectsForDomain jsstring
  | NoProjectsMatching jsstring
  | OpeningProject jsstring
  | ProjectNotFound
  | CommandNotFound jsstring

text \<open>The text of the one-line messages.\<close>

fun message_text :: "rendered \<Rightarrow> jsstring" where
  "message_text (Usage u) = asc ''Usage: '' @ u"
| "message_text NotFoundUseLs =
     asc ''Project not found. Use 'ls' to see available projects.''"
| "message_text (NoProjectsForDomain d) = asc ''No projects found for domain: '' @ d"
| "message_text (NoProjectsMatching q) = asc ''No projects found matching: '' @ q"
| "message_text (OpeningProject t) = asc ''Opening project: '' @ t"
| "message_text ProjectNotFound = asc ''Project not found''"
| "message_text (CommandNotFound c) =
     asc ''Command not found: '' @ c @ asc ''. Type 'help' for available commands.''"
| "message_text _ = []"

record CommandHistory =
  command :: jsstring
  output' :: rendered
  timestamp :: nat

text \<open>The calls the component makes on its props.\<close>

datatype effect = OnClose | OnNavigateToProject jsstring

datatype error = TypeError

text \<open>\<open>findProject\<close>: one pass of \<open>projects.find\<close> with the two tests joined by \<open>||\<close>.\<close>

definition findProject :: "unicode \<Rightarrow> Project list \<Rightarrow> jsstring \<Rightarrow> Project option" where
  "findProject U catalog query =
     find (\<lambda>p. id' p = query \<or>
               includes_str (toLowerCase U (title p)) (toLowerCase U query))
       catalog"

datatype command_name = Help | Ls | Cat | Filter | Search | Clear | Exit | Open

text \<open>
  The \<open>execute\<close> member of each entry of \<open>COMMANDS\<close>; \<open>None\<close> is the \<open>null\<close> that
  \<open>clear\<close> and \<open>exit\<close> return. \<open>!args[0]\<close> holds when there is no first argument or it
  is the empty string.
\<close>

fun execute ::
  "unicode \<Rightarrow> Project list \<Rightarrow> command_name \<Rightarrow> jsstring list \<Rightarrow> rendered option" where
  "execute U catalog Help args = Some HelpText"
| "execute U catalog Ls args = Some (ProjectList catalog (asc ''Projects''))"
| "execute U catalog Cat [] = Some (Usage (asc ''cat <project-id>''))"
| "execute U catalog Cat (a # rest) =
     (if a = [] then Some (Usage (asc ''cat <project-id>''))
      else (case findProject U catalog a of
              None \<Rightarrow> Some NotFoundUseLs
            | Some project \<Rightarrow> Some (ProjectDetails project)))"
| "execute U catalog Filter [] = Some (Usage (asc ''filter <domain>''))"
| "execute U catalog Filter (a # rest) =
     (if a = [] then Some (Usage (asc ''filter <domain>''))
      else (let domain_name = toUpperCase U (take 1 a) @ toLowerCase U (drop 1 a);
                filtered = filter (\<lambda>p. toLowerCase U (domain_str (domain p)) =
                                       toLowerCase U domain_name) catalog
            in if length filtered = 0 then Some (NoProjectsForDomain domain_name)
               else Some (ProjectList filtered (asc ''Projects in '' @ domain_name))))"
| "execute U catalog Search [] = Some (Usage (asc ''search <query>''))"
| "execute U catalog Search (a # rest) =
     (if a = [] then Some (Usage (asc ''search <query>''))
      else (let query = toLowerCase U (join [space] (a # rest));
                filtered = filter (matchesSearch U query) catalog
            in if length filtered = 0 then Some (NoProjectsMatching query)
               else Some (ProjectList filtered (asc ''Search results''))))"
| "execute U catalog Clear args = None"
| "execute U catalog Exit args = None"
| "execute U catalog Open [] = Some (Usage (asc ''open <project-id>''))"
| "execute U catalog Open (a # rest) =
     (if a = [] then Some (Usage (asc ''open <project-id>''))
      else (case findProject U catalog a of
              None \<Rightarrow> Some NotFoundUseLs
            | Some project \<Rightarrow> Some (OpeningProject (title project))))"

text \<open>
  \<open>COMMANDS[cmd]\<close>. \<open>COMMANDS\<close> is an object literal, so the lookup also finds what the
  object inherits from \<open>Object.prototype\<close>. The lower-case names there are
  \<open>constructor\<close> and \<open>__proto__\<close>; both values are objects (truthy) without an
  \<open>execute\<close> member.
\<close>

datatype member = Handler command_name | Inherited

definition COMMANDS :: "jsstring \<Rightarrow> member option" where
  "COMMANDS cmd =
     (if cmd = asc ''help'' then Some (Handler Help)
      else if cmd = asc ''ls'' then Some (Handler Ls)
      else if cmd = asc ''cat'' then Some (Handler Cat)
      else if cmd = asc ''filter'' then Some (Handler Filter)
      else if cmd = asc ''search'' then Some (Handler Search)
      else if cmd = asc ''clear'' then Some (Handler Clear)
      else if cmd = asc ''exit'' then Some (Handler Exit)
      else if cmd = asc ''open'' then Some (Handler Open)
      else if cmd = asc ''constructor'' \<or> cmd = asc ''__proto__'' then Some Inherited
      else None)"

definition no_arg0 :: "jsstring list \<Rightarrow> bool" where
  "no_arg0 args = (case args of [] \<Rightarrow> True | a # rest \<Rightarrow> a = [])"

text \<open>
  \<open>executeCommand\<close> after the line is parsed (from "Handle special commands" on).
  \<open>hasNavigate\<close> says whether the optional prop \<open>onNavigateToProject\<close> was given,
  \<open>now\<close> is the value of \<open>new Date()\<close>. The result is the new history and the prop
  calls made; calling the missing \<open>execute\<close> of an inherited member throws.
\<close>

definition dispatch ::
  "unicode \<Rightarrow> Project list \<Rightarrow> bool \<Rightarrow> nat \<Rightarrow> CommandHistory list \<Rightarrow> jsstring \<Rightarrow> jsstring
     \<Rightarrow> jsstring list \<Rightarrow> error + CommandHistory list \<times> effect list" where
  "dispatch U catalog hasNavigate now commandHistory trimmed cmd args =
     (if cmd = asc ''exit'' then Inr (commandHistory, [OnClose])
      else if cmd = asc ''clear'' then Inr ([], [])
      else if cmd = asc ''open'' \<and> \<not> no_arg0 args then
        (let project = findProject U catalog (hd args)
         in Inr (commandHistory @
                   [\<lparr> command = trimmed,
                      output' = (case project of
                                  Some p \<Rightarrow> OpeningProject (title p)
                                | None \<Rightarrow> ProjectNotFound),
                      timestamp = now \<rparr>],
                 (case project of
                    Some p \<Rightarrow> if hasNavigate then [OnNavigateToProject (id' p)] else []
                  | None \<Rightarrow> [])))
      else (case COMMANDS cmd of
              None \<Rightarrow>
                Inr (commandHistory @
                       [\<lparr> command = trimmed, output' = CommandNotFound cmd,
                          timestamp = now \<rparr>], [])
            | Some Inherited \<Rightarrow> Inl TypeError
            | Some (Handler h) \<Rightarrow>
                (case execute U catalog h args of
                   None \<Rightarrow> Inr (commandHistory, [])
                 | Some out \<Rightarrow>
                     Inr (commandHistory @
                            [\<lparr> command = trimmed, output' = out, timestamp = now \<rparr>],
                          []))))"

text \<open>
  \<open>executeCommand\<close>: trim, return on an empty line, split at the space character, take the
  first piece lower-cased as the command and the other pieces as the arguments.
\<close>

definition executeCommand ::
  "unicode \<Rightarrow> Project list \<Rightarrow> bool \<Rightarrow> nat \<Rightarrow> CommandHistory list \<Rightarrow> jsstring
     \<Rightarrow> error + CommandHistory list \<times> effect list" where
  "executeCommand U catalog hasNavigate now commandHistory input =
     (let trimmed = trim input
      in if trimmed = [] then Inr (commandHistory, [])
         else (case splitOn space trimmed of
                 [] \<Rightarrow> Inl TypeError
               | c # args \<Rightarrow>
                   dispatch U catalog hasNavigate now commandHistory trimmed
                     (toLowerCase U c) args))"

text \<open>The component state, and the state once the widget is opened.\<close>

record cli =
  commandHistory :: "CommandHistory list"
  currentInput :: jsstring
  commandIndex :: int

definition openCLI :: "nat \<Rightarrow> cli" where
  "openCLI now =
     \<lparr> commandHistory =
         [\<lparr> command = asc ''welcome'', output' = Welcome, timestamp = now \<rparr>],
       currentInput = [], commandIndex = - 1 \<rparr>"

definition onChange :: "jsstring \<Rightarrow> cli \<Rightarrow> cli" where
  "onChange v s = s\<lparr> currentInput := v \<rparr>"

datatype key = Enter | ArrowUp | ArrowDown | Escape | OtherKey

text \<open>
  \<open>handleKeyDown\<close>. \<open>commandHistory[newIndex]?.command\<close> is undefined outside the array,
  and the input is set only for a non-empty command other than \<open>welcome\<close>.
\<close>

definition handleKeyDown ::
  "unicode \<Rightarrow> Project list \<Rightarrow> bool \<Rightarrow> nat \<Rightarrow> key \<Rightarrow> cli \<Rightarrow> error + cli \<times> effect list" where
  "handleKeyDown U catalog hasNavigate now k s =
     (case k of
        Enter \<Rightarrow>
          (case executeCommand U catalog hasNavigate now (commandHistory s)
                  (currentInput s) of
             Inl e \<Rightarrow> Inl e
           | Inr (h, fx) \<Rightarrow>
               Inr (\<lparr> commandHistory = h, currentInput = [], commandIndex = - 1 \<rparr>, fx))
      | ArrowUp \<Rightarrow>
          (if length (commandHistory s) > 0 then
             (let newIndex = (if commandIndex s = - 1 then int (length (commandHistory s)) - 1
                              else max 0 (commandIndex s - 1));
                  cmd = (if 0 \<le> newIndex \<and> newIndex < int (length (commandHistory s))
                         then Some (command (commandHistory s ! nat newIndex)) else None)
              in Inr (s\<lparr> commandIndex := newIndex,
                         currentInput :=
                           (case cmd of
                              Some c \<Rightarrow> if c \<noteq> [] \<and> c \<noteq> asc ''welcome'' then c
                                        else currentInput s
                            | None \<Rightarrow> currentInput s) \<rparr>, []))
           else Inr (s, []))
      | ArrowDown \<Rightarrow>
          (if commandIndex s \<ge> 0 then
             (let newIndex = commandIndex s + 1
              in if newIndex \<ge> int (length (commandHistory s))
                 then Inr (s\<lparr> commandIndex := - 1, currentInput := [] \<rparr>, [])
                 else Inr (s\<lparr> commandIndex := newIndex,
                              currentInput := command (commandHistory s ! nat newIndex) \<rparr>,
                           []))
           else Inr (s, []))
      | Escape \<Rightarrow> Inr (s, [OnClose])
      | OtherKey \<Rightarrow> Inr (s, []))"

text \<open>
  A run of events, each with the clock reading at that moment; it stops at the first
  error and collects the prop calls.
\<close>

datatype event = Type jsstring | Press key

fun step ::
  "unicode \<Rightarrow> Project list \<Rightarrow> bool \<Rightarrow> nat \<Rightarrow> event \<Rightarrow> cli \<Rightarrow> error + cli \<times> effect list" where
  "step U catalog hasNavigate now (Type v) s = Inr (onChange v s, [])"
| "step U catalog hasNavigate now (Press k) s = handleKeyDown U catalog hasNavigate now k s"

fun run ::
  "unicode \<Rightarrow> Project list \<Rightarrow> bool \<Rightarrow> (nat \<times> event) list \<Rightarrow> cli
     \<Rightarrow> error + cli \<times> effect list" where
  "run U catalog hasNavigate [] s = Inr (s, [])"
| "run U catalog hasNavigate ((now, e) # es) s =
     (case step U catalog hasNavigate now e s of
        Inl err \<Rightarrow> Inl err
      | Inr (s', fx) \<Rightarrow>
          (case run U catalog hasNavigate es s' of
             Inl err \<Rightarrow> Inl err
           | Inr (s'', fx') \<Rightarrow> Inr (s'', fx @ fx')))"

text \<open>The projects that an output lists (\<open>renderProjectList\<close>), none for a notice.\<close>

fun listed :: "rendered option \<Rightarrow> Project list" where
  "listed (Some (ProjectList l t)) = l"
| "listed _ = []"

text \<open>
  The two-stage lookup as the specification words it: the project whose id is the
  argument, and only when there is none the first project whose title contains it.
\<close>

definition spec_resolve :: "unicode \<Rightarrow> Project list \<Rightarrow> jsstring \<Rightarrow> Project option" where
  "spec_resolve U catalog q =
     (case find (\<lambda>p. id' p = q) catalog of
        Some p \<Rightarrow> Some p
      | None \<Rightarrow> find (\<lambda>p. ci_substring U q (title p)) catalog)"

text \<open>A catalog with unique ids in which a title contains the id of a later project.\<close>

definition shadow_catalog :: "Project list" where
  "shadow_catalog =
   [ createProject (asc ''netsecure-ui'') (asc ''NetSecure-UI'') Design None
       (asc ''Design system for NetSecure.'') [asc ''Design''] None,
     createProject (asc ''netsecure'') (asc ''NetSecure'') Design
       (Some (Array [OpenSource]))
       (asc ''Security-focused design concept.'') (map asc [''Design'', ''UI/UX'']) None ]"

section \<open>Facts about the string operations\<close>

lemma includes_sublist: "includes_str s q = sublist q s"
  by (induction s) (simp_all add: sublist_Cons_right)

lemma toLowerCase_ascii: "ascii s \<Longrightarrow> toLowerCase U s = map lowerASCII s"
  by transfer auto

lemma toUpperCase_ascii: "ascii s \<Longrightarrow> toUpperCase U s = map upperASCII s"
  by transfer auto

lemma sample_lower: "toLowerCase sample_tables s = concat (map lower_unit s)"
  by transfer simp

lemma sample_upper: "toUpperCase sample_tables s = concat (map upper_unit s)"
  by transfer simp

lemma lowerASCII_upperASCII: "lowerASCII (upperASCII c) = lowerASCII c"
  by (auto simp: lowerASCII_def upperASCII_def)

lemma lowerASCII_idem: "lowerASCII (lowerASCII c) = lowerASCII c"
  by (auto simp: lowerASCII_def)

lemma upperASCII_lowerASCII: "upperASCII (lowerASCII c) = upperASCII c"
  by (auto simp: lowerASCII_def upperASCII_def)

lemma ascii_lower: "ascii s \<Longrightarrow> ascii (map lowerASCII s)"
  by (induction s) (auto simp: ascii_def lowerASCII_def)

lemma ascii_upper: "ascii s \<Longrightarrow> ascii (map upperASCII s)"
  by (induction s) (auto simp: ascii_def upperASCII_def)

lemma ascii_append: "ascii (s @ t) = (ascii s \<and> ascii t)"
  by (simp add: ascii_def)

lemma ascii_take: "ascii s \<Longrightarrow> ascii (take n s)"
  by (auto simp: ascii_def list_all_iff dest: in_set_takeD)

lemma ascii_drop: "ascii s \<Longrightarrow> ascii (drop n s)"
  by (auto simp: ascii_def list_all_iff dest: in_set_dropD)

lemma lowerASCII_o_upperASCII: "lowerASCII \<circ> upperASCII = lowerASCII"
  by (rule ext) (simp add: lowerASCII_upperASCII)

lemma lowerASCII_o_lowerASCII: "lowerASCII \<circ> lowerASCII = lowerASCII"
  by (rule ext) (simp add: lowerASCII_idem)

lemma upperASCII_o_lowerASCII: "upperASCII \<circ> lowerASCII = upperASCII"
  by (rule ext) (simp add: upperASCII_lowerASCII)

lemma lower_of_upper_lower:
  assumes "ascii x" "ascii y"
  shows "toLowerCase U (toUpperCase U x @ toLowerCase U y) = toLowerCase U (x @ y)"
proof -
  have u: "toUpperCase U x = map upperASCII x" using assms(1) by (rule toUpperCase_ascii)
  have l: "toLowerCase U y = map lowerASCII y" using assms(2) by (rule toLowerCase_ascii)
  have a: "ascii (map upperASCII x @ map lowerASCII y)"
    using assms by (simp add: ascii_append ascii_upper ascii_lower)
  have b: "ascii (x @ y)" using assms by (simp add: ascii_append)
  have "toLowerCase U (map upperASCII x @ map lowerASCII y) =
      map lowerASCII (map upperASCII x @ map lowerASCII y)"
    using a by (rule toLowerCase_ascii)
  also have "\<dots> = map lowerASCII (x @ y)"
    by (simp add: lowerASCII_o_upperASCII lowerASCII_o_lowerASCII)
  also have "\<dots> = toLowerCase U (x @ y)"
    using b by (rule toLowerCase_ascii[symmetric])
  finally show ?thesis by (simp only: u l)
qed

lemma toLowerCase_normalise:
  assumes "ascii d"
  shows "toLowerCase U (toUpperCase U (take 1 d) @ toLowerCase U (drop 1 d)) =
           toLowerCase U d"
  using lower_of_upper_lower[of "take 1 d" "drop 1 d" U] assms
  by (simp add: ascii_take ascii_drop)

lemma normalise_cong:
  assumes "ascii d" "ascii e" "toLowerCase U d = toLowerCase U e"
  shows "toUpperCase U (take 1 d) @ toLowerCase U (drop 1 d) =
           toUpperCase U (take 1 e) @ toLowerCase U (drop 1 e)"
proof -
  have m: "map lowerASCII d = map lowerASCII e"
    using assms by (simp add: toLowerCase_ascii)
  have l: "map lowerASCII (drop 1 d) = map lowerASCII (drop 1 e)"
    using m by (metis drop_map)
  have "map lowerASCII (take 1 d) = map lowerASCII (take 1 e)"
    using m by (metis take_map)
  then have "map upperASCII (map lowerASCII (take 1 d)) =
      map upperASCII (map lowerASCII (take 1 e))" by (rule arg_cong)
  then have u: "map upperASCII (take 1 d) = map upperASCII (take 1 e)"
    by (simp add: upperASCII_o_lowerASCII)
  have "toUpperCase U (take 1 d) = map upperASCII (take 1 d)"
    "toUpperCase U (take 1 e) = map upperASCII (take 1 e)"
    "toLowerCase U (drop 1 d) = map lowerASCII (drop 1 d)"
    "toLowerCase U (drop 1 e) = map lowerASCII (drop 1 e)"
    using assms(1,2)
    by (simp_all add: toUpperCase_ascii toLowerCase_ascii ascii_take ascii_drop)
  then show ?thesis using l u by (simp only:)
qed

lemma trim_blank: "\<forall>ch \<in> set s. isWhiteSpace ch \<Longrightarrow> trim s = []"
proof -
  assume "\<forall>ch \<in> set s. isWhiteSpace ch"
  then have "dropWhile isWhiteSpace s = []" by simp
  then show ?thesis by (simp add: trim_def del: dropWhile_eq_Nil_conv)
qed

lemma trim_eq_Nil: "trim s = [] \<longleftrightarrow> (\<forall>ch \<in> set s. isWhiteSpace ch)"
proof
  assume t: "trim s = []"
  show "\<forall>ch \<in> set s. isWhiteSpace ch"
  proof (cases "dropWhile isWhiteSpace s")
    case Nil
    then show ?thesis by simp
  next
    case (Cons x xs)
    then have "\<not> isWhiteSpace x" by (metis hd_dropWhile list.sel(1) list.distinct(1))
    moreover from t have "\<forall>y \<in> set (dropWhile isWhiteSpace s). isWhiteSpace y"
      by (simp add: trim_def)
    ultimately show ?thesis using Cons by simp
  qed
next
  assume "\<forall>ch \<in> set s. isWhiteSpace ch"
  then show "trim s = []" by (rule trim_blank)
qed

lemma dropWhile_keep: "xs \<noteq> [] \<Longrightarrow> \<not> P (hd xs) \<Longrightarrow> dropWhile P xs = xs"
  by (cases xs) simp_all

lemma trim_wrap:
  assumes "s \<noteq> []" "\<not> isWhiteSpace (hd s)" "\<not> isWhiteSpace (last s)"
    and "\<forall>ch \<in> set pre. isWhiteSpace ch" "\<forall>ch \<in> set post. isWhiteSpace ch"
  shows "trim (pre @ s @ post) = s"
proof -
  have "dropWhile isWhiteSpace (pre @ s @ post) = dropWhile isWhiteSpace (s @ post)"
    by (rule dropWhile_append2) (use assms(4) in simp)
  also have "\<dots> = s @ post"
    using assms(1,2) by (intro dropWhile_keep) simp_all
  finally have a: "dropWhile isWhiteSpace (pre @ s @ post) = s @ post" .
  have "dropWhile isWhiteSpace (rev post @ rev s) = dropWhile isWhiteSpace (rev s)"
    by (rule dropWhile_append2) (use assms(5) in simp)
  also have "\<dots> = rev s"
    using assms(1,3) by (intro dropWhile_keep) (simp_all add: hd_rev)
  finally have b: "dropWhile isWhiteSpace (rev post @ rev s) = rev s" .
  show ?thesis unfolding trim_def a using b by simp
qed

lemma splitOn_nonempty: "splitOn sep s \<noteq> []"
  by (induction s) (auto split: list.splits)

lemma splitOn_no_sep: "sep \<notin> set t \<Longrightarrow> splitOn sep t = [t]"
  by (induction t) auto

lemma splitOn_append: "sep \<notin> set t \<Longrightarrow> splitOn sep (t @ sep # s) = t # splitOn sep s"
  by (induction t) auto

lemma splitOn_join:
  "ts \<noteq> [] \<Longrightarrow> \<forall>t \<in> set ts. sep \<notin> set t \<Longrightarrow> splitOn sep (join [sep] ts) = ts"
  by (induction "[sep]" ts rule: join.induct) (simp_all add: splitOn_no_sep splitOn_append)

lemma join_Cons_Cons: "join sep ((c # t) # ts) = c # join sep (t # ts)"
  by (cases ts) simp_all

lemma join_splitOn: "join [sep] (splitOn sep s) = s"
proof (induction s)
  case Nil
  show ?case by simp
next
  case (Cons c cs)
  show ?case
  proof (cases "c = sep")
    case True
    obtain t ts where "splitOn sep cs = t # ts"
      using splitOn_nonempty[of sep cs] by (cases "splitOn sep cs") auto
    with Cons True show ?thesis by simp
  next
    case False
    obtain t ts where "splitOn sep cs = t # ts"
      using splitOn_nonempty[of sep cs] by (cases "splitOn sep cs") auto
    with Cons False show ?thesis by (simp add: join_Cons_Cons)
  qed
qed

lemma splitOn_pieces: "t \<in> set (splitOn sep s) \<Longrightarrow> sep \<notin> set t"
proof (induction s arbitrary: t)
  case Nil
  then show ?case by simp
next
  case (Cons c cs)
  obtain u us where u: "splitOn sep cs = u # us"
    using splitOn_nonempty[of sep cs] by (cases "splitOn sep cs") auto
  show ?case
  proof (cases "c = sep")
    case True
    with Cons show ?thesis by auto
  next
    case False
    with Cons.prems u have "t = c # u \<or> t \<in> set us" by simp
    then show ?thesis
      using Cons.IH[of u] Cons.IH[of t] u False by auto
  qed
qed

lemma splitOn_two_pieces: "splitOn sep s = c # a # rest \<Longrightarrow> s \<noteq> []"
  by auto

lemma join_nonempty: "c \<noteq> [] \<Longrightarrow> join sep (c # args) \<noteq> []"
  by (cases args) simp_all

lemma hd_join: "c \<noteq> [] \<Longrightarrow> hd (join sep (c # args)) = hd c"
  by (cases args) simp_all

lemma join_tokens_nonempty:
  "ts \<noteq> [] \<Longrightarrow> \<forall>t \<in> set ts. t \<noteq> [] \<Longrightarrow> join sep ts \<noteq> []"
  by (cases ts) (simp_all add: join_nonempty)

lemma last_join:
  "ts \<noteq> [] \<Longrightarrow> \<forall>t \<in> set ts. t \<noteq> [] \<Longrightarrow> last (join sep ts) = last (last ts)"
proof (induction sep ts rule: join.induct)
  case (3 sep x y ys)
  have "join sep (y # ys) \<noteq> []" using 3 by (intro join_tokens_nonempty) simp_all
  with 3 show ?case by simp
qed simp_all

lemma ci_substring_includes:
  "ci_substring U q s = includes_str (toLowerCase U s) (toLowerCase U q)"
  by (simp add: ci_substring_def includes_sublist)

section \<open>Facts about the lookup and the interpreter\<close>

text \<open>Rules that evaluate the string operations and the shipped catalog.\<close>

lemmas string_eval = asc_def ascii_def lowerASCII_def upperASCII_def toLowerCase_ascii
  toUpperCase_ascii isWhiteSpace_def space_def

lemmas sample_eval = sample_lower sample_upper lower_unit_def upper_unit_def

lemmas catalog_eval = projects_def createProject_def

lemma trim_eval:
  "trim (asc ''clear'') = asc ''clear''" "trim (asc ''help'') = asc ''help''"
  "trim (asc ''constructor'') = asc ''constructor''" "trim (asc ''ls'') = asc ''ls''"
  by (simp_all add: trim_def string_eval)

lemma findProject_alt:
  "findProject U ps q = find (\<lambda>p. id' p = q \<or> ci_substring U q (title p)) ps"
  by (simp add: findProject_def ci_substring_includes)

lemma findProject_no_id:
  "\<forall>p \<in> set ps. id' p \<noteq> q \<Longrightarrow>
     findProject U ps q = find (\<lambda>p. ci_substring U q (title p)) ps"
  unfolding findProject_alt by (intro find_cong) auto

lemma findProject_first:
  assumes "i < length ps" "id' (ps ! i) = q \<or> ci_substring U q (title (ps ! i))"
    and "\<forall>p \<in> set (take i ps). id' p \<noteq> q \<and> \<not> ci_substring U q (title p)"
  shows "findProject U ps q = Some (ps ! i)"
proof -
  have "ps ! j \<in> set (take i ps)" if "j < i" for j
  proof -
    have "take i ps ! j = ps ! j" using that by simp
    moreover have "j < length (take i ps)" using that assms(1) by simp
    ultimately show ?thesis by (metis nth_mem)
  qed
  with assms(3) have "\<forall>j<i. \<not> (id' (ps ! j) = q \<or> ci_substring U q (title (ps ! j)))"
    by blast
  with assms(1,2) show ?thesis
    unfolding findProject_alt find_Some_iff by blast
qed

lemma findProject_none:
  "findProject U ps q = None \<longleftrightarrow>
     (\<forall>p \<in> set ps. id' p \<noteq> q \<and> \<not> ci_substring U q (title p))"
  unfolding findProject_alt find_None_iff by blast

lemma includes_str_Nil: "includes_str s []"
  by (cases s) simp_all

lemma findProject_empty: "findProject U (p # ps) [] = Some p"
  by (simp add: findProject_def includes_str_Nil string_eval)

lemma projects_ids:
  "map id' projects = map asc [''owl-watch'', ''lock-and-key'', ''horizonsec'',
     ''the-data-packet'', ''thought-smith'', ''the-deployment-forge'', ''whomping-willow'',
     ''hogwarts'', ''netsecure'']"
  by (simp add: catalog_eval)

lemma spec_resolve_no_id:
  "\<forall>p \<in> set ps. id' p \<noteq> q \<Longrightarrow>
     spec_resolve U ps q = find (\<lambda>p. ci_substring U q (title p)) ps"
proof -
  assume "\<forall>p \<in> set ps. id' p \<noteq> q"
  then have "find (\<lambda>p. id' p = q) ps = None" by (simp add: find_None_iff)
  then show ?thesis by (simp add: spec_resolve_def)
qed

text \<open>
  On the shipped catalog the one-pass lookup and the two-stage lookup agree for every
  argument: no title contains the id of a later project.
\<close>

lemma shipped_ids_agree:
  "\<forall>q \<in> set (map id' projects). findProject U projects q = spec_resolve U projects q"
  unfolding projects_ids
  by (simp add: findProject_def spec_resolve_def catalog_eval string_eval)

lemma shipped_catalog_agrees: "findProject U projects q = spec_resolve U projects q"
proof (cases "q \<in> set (map id' projects)")
  case False
  then have "\<forall>p \<in> set projects. id' p \<noteq> q" by auto
  then show ?thesis by (simp add: findProject_no_id spec_resolve_no_id)
next
  case True
  then show ?thesis using shipped_ids_agree by blast
qed

text \<open>
  What a line does once it is split: the pieces decide, through \<open>dispatch\<close>.
\<close>

lemma executeCommand_pieces:
  assumes "trim input \<noteq> []" "splitOn space (trim input) = c # args"
  shows "executeCommand U ps nav now h input =
           dispatch U ps nav now h (trim input) (toLowerCase U c) args"
  using assms by (simp add: executeCommand_def)

lemma dispatch_cat:
  "dispatch U ps nav now h line (asc ''cat'') (q # rest) =
     Inr (h @ [\<lparr> command = line,
                 output' = (if q = [] then Usage (asc ''cat <project-id>'')
                            else case findProject U ps q of
                                   None \<Rightarrow> NotFoundUseLs
                                 | Some p \<Rightarrow> ProjectDetails p),
                 timestamp = now \<rparr>], [])"
  by (simp add: dispatch_def COMMANDS_def no_arg0_def asc_def split: option.splits)

lemma dispatch_open:
  "dispatch U ps nav now h line (asc ''open'') (q # rest) =
     Inr (h @ [\<lparr> command = line,
                 output' = (if q = [] then Usage (asc ''open <project-id>'')
                            else case findProject U ps q of
                                   None \<Rightarrow> ProjectNotFound
                                 | Some p \<Rightarrow> OpeningProject (title p)),
                 timestamp = now \<rparr>],
          (if q = [] then []
           else case findProject U ps q of
                  None \<Rightarrow> []
                | Some p \<Rightarrow> if nav then [OnNavigateToProject (id' p)] else []))"
  by (simp add: dispatch_def COMMANDS_def no_arg0_def asc_def split: option.splits)

text \<open>
  Where \<open>executeCommand\<close> returns: on every line whose command name is not one of the
  two inherited member names. A name that \<open>COMMANDS\<close> does not know gets the
  unknown-command message, which shows the lower-cased name and points to \<open>help\<close>.
\<close>

lemma executeCommand_returns:
  assumes "COMMANDS (toLowerCase U (hd (splitOn space (trim input)))) \<noteq> Some Inherited"
  shows "\<exists>h' fx. executeCommand U ps nav now h input = Inr (h', fx)"
proof (cases "trim input = []")
  case True
  then show ?thesis by (simp add: executeCommand_def)
next
  case False
  obtain c args where sp: "splitOn space (trim input) = c # args"
    using splitOn_nonempty[of space "trim input"]
    by (cases "splitOn space (trim input)") auto
  with assms have "COMMANDS (toLowerCase U c) \<noteq> Some Inherited" by simp
  then show ?thesis using False sp
    by (auto simp: executeCommand_def dispatch_def Let_def
        split: option.splits member.splits)
qed

lemma unknown_command_message:
  assumes "trim input \<noteq> []"
    and "splitOn space (trim input) = c # args" and "COMMANDS (toLowerCase U c) = None"
  shows "executeCommand U ps nav now h input =
           Inr (h @ [\<lparr> command = trim input, output' = CommandNotFound (toLowerCase U c),
                       timestamp = now \<rparr>], [])
         \<and> message_text (CommandNotFound (toLowerCase U c)) =
             asc ''Command not found: '' @ toLowerCase U c @
             asc ''. Type 'help' for available commands.''"
proof -
  have "toLowerCase U c \<noteq> asc ''exit''" "toLowerCase U c \<noteq> asc ''clear''"
    "toLowerCase U c \<noteq> asc ''open''"
    using assms(3) by (auto simp: COMMANDS_def asc_def split: if_splits)
  then show ?thesis using assms by (simp add: executeCommand_def dispatch_def)
qed

lemma foobar_message:
  "executeCommand U ps nav now h (asc ''foobar'') =
     Inr (h @ [\<lparr> command = asc ''foobar'', output' = CommandNotFound (asc ''foobar''),
                 timestamp = now \<rparr>], [])"
  by (simp add: executeCommand_def dispatch_def COMMANDS_def no_arg0_def trim_def string_eval
      Let_def)

lemma proto_throws: "executeCommand U ps nav now h (asc ''__proto__'') = Inl TypeError"
  by (simp add: executeCommand_def dispatch_def COMMANDS_def no_arg0_def trim_def string_eval
      Let_def)

lemma keepProject_spec:
  "keepProject U q ds ts = (\<lambda>p. spec_query U q p \<and> spec_domain ds p \<and> spec_type ts p)"
  by (rule ext) (auto simp: keepProject_def matchesSearch_def spec_query_def spec_domain_def
      spec_type_def projectTypes_def ci_substring_def includes_sublist list_ex_iff
      split: type_field.splits)

section \<open>The filter engine\<close>

text \<open>
  C1: for every catalog, query, domain set and type set, the filter engine returns exactly
  the projects that satisfy the query predicate, the domain predicate and the type
  predicate together, in catalog order: the result is the catalog filtered by the
  conjunction, hence a subsequence of the catalog.
\<close>

theorem filteredProjects_conjunction:
  "filteredProjects U catalog q ds ts =
     filter (\<lambda>p. spec_query U q p \<and> spec_domain ds p \<and> spec_type ts p) catalog
   \<and> subseq (filteredProjects U catalog q ds ts) catalog
   \<and> set (filteredProjects U catalog q ds ts) =
       {p \<in> set catalog. spec_query U q p \<and> spec_domain ds p \<and> spec_type ts p}"
  by (simp add: filteredProjects_def keepProject_spec)

text \<open>
  On the shipped catalog: the query \<open>REACT\<close> in the domain Web Development, the one
  project with the type Published Package (in an array), the one with the type Research
  (a single value), and the projects of type Open Source within the domain Security.
\<close>

lemma shipped_filters:
  "map id' (filteredProjects U projects (asc ''REACT'') {WebDevelopment} {}) =
     map asc [''thought-smith'', ''whomping-willow'', ''hogwarts'']"
  "map id' (filteredProjects U projects [] {} {PublishedPackage}) = [asc ''lock-and-key'']"
  "map id' (filteredProjects U projects [] {} {ResearchType}) = [asc ''the-data-packet'']"
  "map id' (filteredProjects U projects [] {Security, Research} {OpenSource}) =
     map asc [''lock-and-key'', ''horizonsec'']"
  by (simp_all add: filteredProjects_def keepProject_def matchesSearch_def projectTypes_def
      string_eval catalog_eval)

theorem filteredProjects_conjunction_witness:
  "map id' (filter (\<lambda>p. spec_query sample_tables (asc ''REACT'') p \<and>
                      spec_domain {WebDevelopment} p \<and> spec_type {} p) projects) =
     map asc [''thought-smith'', ''whomping-willow'', ''hogwarts'']
   \<and> map id' (filter (\<lambda>p. spec_query sample_tables [] p \<and> spec_domain {} p \<and>
                      spec_type {PublishedPackage} p) projects) = [asc ''lock-and-key'']
   \<and> map id' (filter (\<lambda>p. spec_query sample_tables [] p \<and> spec_domain {} p \<and>
                      spec_type {ResearchType} p) projects) = [asc ''the-data-packet'']
   \<and> map id' (filter (\<lambda>p. spec_query sample_tables [] p \<and>
                      spec_domain {Security, Research} p \<and>
                      spec_type {OpenSource} p) projects) =
       map asc [''lock-and-key'', ''horizonsec'']"
  using filteredProjects_conjunction[of sample_tables projects "asc ''REACT''"
      "{WebDevelopment}" "{}"]
    filteredProjects_conjunction[of sample_tables projects "[]" "{}" "{PublishedPackage}"]
    filteredProjects_conjunction[of sample_tables projects "[]" "{}" "{ResearchType}"]
    filteredProjects_conjunction[of sample_tables projects "[]" "{Security, Research}"
      "{OpenSource}"]
    shipped_filters[of sample_tables]
  by simp

text \<open>
  C2: with the empty query, no selected domain and no selected type, the filter engine
  returns the catalog itself.
\<close>

theorem filteredProjects_no_filters: "filteredProjects U catalog [] {} {} = catalog"
  by (simp add: filteredProjects_def keepProject_def)

theorem filteredProjects_no_filters_witness:
  "filteredProjects sample_tables shadow_catalog [] {} {} = shadow_catalog"
  using filteredProjects_no_filters[of sample_tables shadow_catalog] .

section \<open>The command interpreter\<close>

text \<open>
  C3: the specification describes a two-stage lookup, exact id first and title only when
  no id matches. The code makes one pass. For a line whose first argument \<open>q\<close> is not
  empty, \<open>cat\<close> and \<open>open\<close> resolve the first project, in catalog order, whose id
  equals \<open>q\<close> or whose title contains \<open>q\<close> case-insensitively: \<open>cat\<close> shows it,
  \<open>open\<close> confirms it and navigates to it; when no project matches either way both show
  their not-found message. When the first argument is the empty piece, both print their
  usage and resolve nothing.
\<close>

theorem cat_open_first_match:
  assumes sp: "splitOn space (trim input) = c # q # rest"
  shows
   "(q \<noteq> [] \<and> i < length ps \<and>
       (id' (ps ! i) = q \<or> ci_substring U q (title (ps ! i))) \<and>
       (\<forall>p \<in> set (take i ps). id' p \<noteq> q \<and> \<not> ci_substring U q (title p)) \<longrightarrow>
       (toLowerCase U c = asc ''cat'' \<longrightarrow>
          executeCommand U ps nav now h input =
            Inr (h @ [\<lparr> command = trim input, output' = ProjectDetails (ps ! i),
                        timestamp = now \<rparr>], [])) \<and>
       (toLowerCase U c = asc ''open'' \<longrightarrow>
          executeCommand U ps nav now h input =
            Inr (h @ [\<lparr> command = trim input, output' = OpeningProject (title (ps ! i)),
                        timestamp = now \<rparr>],
                 if nav then [OnNavigateToProject (id' (ps ! i))] else [])))
    \<and> (q \<noteq> [] \<and> (\<forall>p \<in> set ps. id' p \<noteq> q \<and> \<not> ci_substring U q (title p)) \<longrightarrow>
       (toLowerCase U c = asc ''cat'' \<longrightarrow>
          executeCommand U ps nav now h input =
            Inr (h @ [\<lparr> command = trim input, output' = NotFoundUseLs,
                        timestamp = now \<rparr>], [])) \<and>
       (toLowerCase U c = asc ''open'' \<longrightarrow>
          executeCommand U ps nav now h input =
            Inr (h @ [\<lparr> command = trim input, output' = ProjectNotFound,
                        timestamp = now \<rparr>], [])))
    \<and> (q = [] \<longrightarrow>
       (toLowerCase U c = asc ''cat'' \<longrightarrow>
          executeCommand U ps nav now h input =
            Inr (h @ [\<lparr> command = trim input, output' = Usage (asc ''cat <project-id>''),
                        timestamp = now \<rparr>], [])) \<and>
       (toLowerCase U c = asc ''open'' \<longrightarrow>
          executeCommand U ps nav now h input =
            Inr (h @ [\<lparr> command = trim input, output' = Usage (asc ''open <project-id>''),
                        timestamp = now \<rparr>], [])))"
proof -
  have ne: "trim input \<noteq> []" using sp by (rule splitOn_two_pieces)
  have ex: "executeCommand U ps nav now h input =
      dispatch U ps nav now h (trim input) (toLowerCase U c) (q # rest)"
    using ne sp by (rule executeCommand_pieces)
  have found: "findProject U ps q = Some (ps ! i)"
    if "i < length ps" "id' (ps ! i) = q \<or> ci_substring U q (title (ps ! i))"
      "\<forall>p \<in> set (take i ps). id' p \<noteq> q \<and> \<not> ci_substring U q (title p)"
    using that by (rule findProject_first)
  have none: "findProject U ps q = None"
    if "\<forall>p \<in> set ps. id' p \<noteq> q \<and> \<not> ci_substring U q (title p)"
    using that by (simp add: findProject_none)
  show ?thesis
    by (auto simp: ex dispatch_cat dispatch_open found none)
qed

lemma trim_lookup_eval:
  "trim (asc ''cat hog'') = asc ''cat hog''"
  "trim (asc ''OPEN hog'') = asc ''OPEN hog''"
  "trim (asc ''cat nonexistent-id'') = asc ''cat nonexistent-id''"
  "trim (asc ''cat  hogwarts'') = asc ''cat  hogwarts''"
  "trim (asc ''cat netsecure'') = asc ''cat netsecure''"
  "trim (asc ''open netsecure'') = asc ''open netsecure''"
  by (simp_all add: trim_def string_eval)

theorem cat_open_first_match_witness:
  "executeCommand sample_tables projects True 3 [] (asc ''cat hog'') =
     Inr ([\<lparr> command = asc ''cat hog'', output' = ProjectDetails (projects ! 7),
             timestamp = 3 \<rparr>], [])
   \<and> executeCommand sample_tables projects True 3 [] (asc ''OPEN hog'') =
     Inr ([\<lparr> command = asc ''OPEN hog'', output' = OpeningProject (asc ''Hogwarts''),
             timestamp = 3 \<rparr>], [OnNavigateToProject (asc ''hogwarts'')])
   \<and> executeCommand sample_tables projects True 3 [] (asc ''cat nonexistent-id'') =
     Inr ([\<lparr> command = asc ''cat nonexistent-id'', output' = NotFoundUseLs,
             timestamp = 3 \<rparr>], [])
   \<and> executeCommand sample_tables projects True 3 [] (asc ''cat  hogwarts'') =
     Inr ([\<lparr> command = asc ''cat  hogwarts'', output' = Usage (asc ''cat <project-id>''),
             timestamp = 3 \<rparr>], [])"
proof -
  have s1: "splitOn space (trim (asc ''cat hog'')) = asc ''cat'' # asc ''hog'' # []"
    and s2: "splitOn space (trim (asc ''OPEN hog'')) = asc ''OPEN'' # asc ''hog'' # []"
    and s3: "splitOn space (trim (asc ''cat nonexistent-id'')) =
      asc ''cat'' # asc ''nonexistent-id'' # []"
    and s4: "splitOn space (trim (asc ''cat  hogwarts'')) =
      asc ''cat'' # [] # [asc ''hogwarts'']"
    by (simp_all add: trim_lookup_eval) (simp_all add: string_eval)
  have lc: "toLowerCase sample_tables (asc ''cat'') = asc ''cat''"
    "toLowerCase sample_tables (asc ''OPEN'') = asc ''open''"
    by (simp_all add: string_eval)
  have hog: "asc ''hog'' \<noteq> [] \<and> 7 < length projects \<and>
      (id' (projects ! 7) = asc ''hog'' \<or>
       ci_substring sample_tables (asc ''hog'') (title (projects ! 7))) \<and>
      (\<forall>p \<in> set (take 7 projects). id' p \<noteq> asc ''hog'' \<and>
         \<not> ci_substring sample_tables (asc ''hog'') (title p))"
    by (simp add: catalog_eval ci_substring_includes string_eval)
  have non: "asc ''nonexistent-id'' \<noteq> [] \<and>
      (\<forall>p \<in> set projects. id' p \<noteq> asc ''nonexistent-id'' \<and>
         \<not> ci_substring sample_tables (asc ''nonexistent-id'') (title p))"
    by (simp add: catalog_eval ci_substring_includes string_eval)
  have p7: "title (projects ! 7) = asc ''Hogwarts''" "id' (projects ! 7) = asc ''hogwarts''"
    by (simp_all add: catalog_eval)
  note t1 = cat_open_first_match[OF s1, where U = sample_tables and ps = projects and i = 7
      and nav = True and now = 3 and h = "[]"]
  note t2 = cat_open_first_match[OF s2, where U = sample_tables and ps = projects and i = 7
      and nav = True and now = 3 and h = "[]"]
  note t3 = cat_open_first_match[OF s3, where U = sample_tables and ps = projects and i = 7
      and nav = True and now = 3 and h = "[]"]
  note t4 = cat_open_first_match[OF s4, where U = sample_tables and ps = projects and i = 7
      and nav = True and now = 3 and h = "[]"]
  have a: "executeCommand sample_tables projects True 3 [] (asc ''cat hog'') =
     Inr ([\<lparr> command = asc ''cat hog'', output' = ProjectDetails (projects ! 7),
             timestamp = 3 \<rparr>], [])"
    by (rule mp[OF conjunct1[OF mp[OF conjunct1[OF t1[unfolded trim_lookup_eval append_Nil]] hog]]
          lc(1)])
  have "executeCommand sample_tables projects True 3 [] (asc ''OPEN hog'') =
     Inr ([\<lparr> command = asc ''OPEN hog'', output' = OpeningProject (title (projects ! 7)),
             timestamp = 3 \<rparr>], [OnNavigateToProject (id' (projects ! 7))])"
    by (rule mp[OF conjunct2[OF mp[OF conjunct1[OF
          t2[unfolded trim_lookup_eval if_True append_Nil]] hog]] lc(2)])
  then have b: "executeCommand sample_tables projects True 3 [] (asc ''OPEN hog'') =
     Inr ([\<lparr> command = asc ''OPEN hog'', output' = OpeningProject (asc ''Hogwarts''),
             timestamp = 3 \<rparr>], [OnNavigateToProject (asc ''hogwarts'')])"
    by (simp only: p7)
  have c: "executeCommand sample_tables projects True 3 [] (asc ''cat nonexistent-id'') =
     Inr ([\<lparr> command = asc ''cat nonexistent-id'', output' = NotFoundUseLs,
             timestamp = 3 \<rparr>], [])"
    by (rule mp[OF conjunct1[OF mp[OF conjunct1[OF conjunct2[OF
          t3[unfolded trim_lookup_eval append_Nil]]] non]] lc(1)])
  have d: "executeCommand sample_tables projects True 3 [] (asc ''cat  hogwarts'') =
     Inr ([\<lparr> command = asc ''cat  hogwarts'', output' = Usage (asc ''cat <project-id>''),
             timestamp = 3 \<rparr>], [])"
    by (rule mp[OF conjunct1[OF mp[OF conjunct2[OF conjunct2[OF
          t4[unfolded trim_lookup_eval append_Nil]]] refl]] lc(1)])
  from a b c d show ?thesis by (intro conjI)
qed

text \<open>
  In a catalog where the title of an earlier project contains the id of a later one,
  \<open>cat\<close> and \<open>open\<close> resolve the earlier project, not the one with that exact id.
\<close>

theorem cat_open_two_stage_counterexample:
  "executeCommand sample_tables shadow_catalog True 0 [] (asc ''cat netsecure'') =
     Inr ([\<lparr> command = asc ''cat netsecure'', output' = ProjectDetails (shadow_catalog ! 0),
             timestamp = 0 \<rparr>], [])
   \<and> executeCommand sample_tables shadow_catalog True 0 [] (asc ''open netsecure'') =
     Inr ([\<lparr> command = asc ''open netsecure'',
             output' = OpeningProject (asc ''NetSecure-UI''), timestamp = 0 \<rparr>],
          [OnNavigateToProject (asc ''netsecure-ui'')])
   \<and> id' (shadow_catalog ! 0) = asc ''netsecure-ui''
   \<and> id' (shadow_catalog ! 1) = asc ''netsecure''
   \<and> spec_resolve sample_tables shadow_catalog (asc ''netsecure'') =
       Some (shadow_catalog ! 1)"
proof -
  have f: "findProject sample_tables shadow_catalog (asc ''netsecure'') =
      Some (shadow_catalog ! 0)"
    by (simp add: findProject_def shadow_catalog_def createProject_def string_eval)
  have t: "title (shadow_catalog ! 0) = asc ''NetSecure-UI''"
    "id' (shadow_catalog ! 0) = asc ''netsecure-ui''"
    "id' (shadow_catalog ! 1) = asc ''netsecure''"
    by (simp_all add: shadow_catalog_def createProject_def)
  have r: "spec_resolve sample_tables shadow_catalog (asc ''netsecure'') =
      Some (shadow_catalog ! 1)"
    by (simp add: spec_resolve_def shadow_catalog_def createProject_def asc_def)
  have s: "splitOn space (asc ''cat netsecure'') = [asc ''cat'', asc ''netsecure'']"
    "splitOn space (asc ''open netsecure'') = [asc ''open'', asc ''netsecure'']"
    "toLowerCase sample_tables (asc ''cat'') = asc ''cat''"
    "toLowerCase sample_tables (asc ''open'') = asc ''open''"
    "asc ''cat netsecure'' \<noteq> []" "asc ''open netsecure'' \<noteq> []" "asc ''netsecure'' \<noteq> []"
    by (simp_all add: string_eval)
  have a: "executeCommand sample_tables shadow_catalog True 0 [] (asc ''cat netsecure'') =
     Inr ([\<lparr> command = asc ''cat netsecure'', output' = ProjectDetails (shadow_catalog ! 0),
             timestamp = 0 \<rparr>], [])"
    by (simp add: executeCommand_def trim_lookup_eval s dispatch_cat f)
  have b: "executeCommand sample_tables shadow_catalog True 0 [] (asc ''open netsecure'') =
     Inr ([\<lparr> command = asc ''open netsecure'',
             output' = OpeningProject (asc ''NetSecure-UI''), timestamp = 0 \<rparr>],
          [OnNavigateToProject (asc ''netsecure-ui'')])"
    by (simp add: executeCommand_def trim_lookup_eval s dispatch_open f t)
  from a b t(2,3) r show ?thesis by (intro conjI)
qed

text \<open>
  C4: for \<open>open\<close> with a first argument that resolves to no project, an error message is
  appended and no prop is called; with a non-empty first argument that resolves to a
  project, the confirmation is appended and, when the navigation callback is given, it is
  called exactly once, with the id of that project. When the first argument is the empty
  piece, \<open>open\<close> appends its usage message and calls nothing, whatever the lookup would
  resolve.
\<close>

theorem open_navigation:
  assumes sp: "splitOn space (trim input) = c # a # rest"
    and c: "toLowerCase U c = asc ''open''"
  shows "(findProject U ps a = None \<longrightarrow>
           executeCommand U ps nav now h input =
             Inr (h @ [\<lparr> command = trim input,
                         output' = (if a = [] then Usage (asc ''open <project-id>'')
                                    else ProjectNotFound),
                         timestamp = now \<rparr>], []))
       \<and> (a \<noteq> [] \<and> findProject U ps a = Some p \<longrightarrow>
           executeCommand U ps True now h input =
             Inr (h @ [\<lparr> command = trim input, output' = OpeningProject (title p),
                         timestamp = now \<rparr>], [OnNavigateToProject (id' p)])
           \<and> executeCommand U ps False now h input =
             Inr (h @ [\<lparr> command = trim input, output' = OpeningProject (title p),
                         timestamp = now \<rparr>], []))
       \<and> (a = [] \<longrightarrow>
           executeCommand U ps nav now h input =
             Inr (h @ [\<lparr> command = trim input, output' = Usage (asc ''open <project-id>''),
                         timestamp = now \<rparr>], []))"
proof -
  have ne: "trim input \<noteq> []" using sp by (rule splitOn_two_pieces)
  have ex: "executeCommand U ps b now h input =
      dispatch U ps b now h (trim input) (asc ''open'') (a # rest)" for b
    using executeCommand_pieces[OF ne sp] c by simp
  show ?thesis
    by (simp add: ex dispatch_open)
qed

lemma trim_open_eval:
  "trim (asc ''open lock-and-key'') = asc ''open lock-and-key''"
  "trim (asc ''open nonexistent-id'') = asc ''open nonexistent-id''"
  "trim (asc ''open  lock-and-key'') = asc ''open  lock-and-key''"
  by (simp_all add: trim_def string_eval)

lemma open_pieces_eval:
  "splitOn space (asc ''open lock-and-key'') = asc ''open'' # asc ''lock-and-key'' # []"
  "splitOn space (asc ''open nonexistent-id'') = asc ''open'' # asc ''nonexistent-id'' # []"
  "splitOn space (asc ''open  lock-and-key'') = asc ''open'' # [] # [asc ''lock-and-key'']"
  "toLowerCase U (asc ''open'') = asc ''open''"
  by (simp_all add: string_eval)

theorem open_navigation_witness:
  "executeCommand sample_tables projects True 9 [] (asc ''open lock-and-key'') =
     Inr ([\<lparr> command = asc ''open lock-and-key'',
             output' = OpeningProject (asc ''Lock-And-Key''), timestamp = 9 \<rparr>],
          [OnNavigateToProject (asc ''lock-and-key'')])
   \<and> executeCommand sample_tables projects True 9 [] (asc ''open nonexistent-id'') =
     Inr ([\<lparr> command = asc ''open nonexistent-id'', output' = ProjectNotFound,
             timestamp = 9 \<rparr>], [])"
proof -
  have s1: "splitOn space (trim (asc ''open lock-and-key'')) =
      asc ''open'' # asc ''lock-and-key'' # []"
    and s2: "splitOn space (trim (asc ''open nonexistent-id'')) =
      asc ''open'' # asc ''nonexistent-id'' # []"
    by (simp_all only: trim_open_eval open_pieces_eval)
  have lc: "toLowerCase sample_tables (asc ''open'') = asc ''open''"
    by (rule open_pieces_eval)
  have f1: "asc ''lock-and-key'' \<noteq> [] \<and>
      findProject sample_tables projects (asc ''lock-and-key'') = Some (projects ! 1)"
    by (simp add: findProject_def catalog_eval string_eval)
  have f2: "findProject sample_tables projects (asc ''nonexistent-id'') = None"
    by (simp add: findProject_def catalog_eval string_eval)
  have n2: "asc ''nonexistent-id'' \<noteq> []" by (simp add: asc_def)
  have p1: "title (projects ! 1) = asc ''Lock-And-Key''"
    "id' (projects ! 1) = asc ''lock-and-key''"
    by (simp_all add: catalog_eval)
  note t1 = open_navigation[OF s1 lc, where ps = projects and p = "projects ! 1"
      and nav = True and now = 9 and h = "[]", unfolded trim_open_eval append_Nil]
  note t2 = open_navigation[OF s2 lc, where ps = projects and p = "projects ! 1"
      and nav = True and now = 9 and h = "[]", unfolded trim_open_eval append_Nil]
  have "executeCommand sample_tables projects True 9 [] (asc ''open lock-and-key'') =
     Inr ([\<lparr> command = asc ''open lock-and-key'',
             output' = OpeningProject (title (projects ! 1)), timestamp = 9 \<rparr>],
          [OnNavigateToProject (id' (projects ! 1))])"
    by (rule conjunct1[OF mp[OF conjunct1[OF conjunct2[OF t1]] f1]])
  then have a: "executeCommand sample_tables projects True 9 [] (asc ''open lock-and-key'') =
     Inr ([\<lparr> command = asc ''open lock-and-key'',
             output' = OpeningProject (asc ''Lock-And-Key''), timestamp = 9 \<rparr>],
          [OnNavigateToProject (asc ''lock-and-key'')])"
    by (simp only: p1)
  have "executeCommand sample_tables projects True 9 [] (asc ''open nonexistent-id'') =
     Inr ([\<lparr> command = asc ''open nonexistent-id'',
             output' = (if asc ''nonexistent-id'' = [] then Usage (asc ''open <project-id>'')
                        else ProjectNotFound), timestamp = 9 \<rparr>], [])"
    by (rule mp[OF conjunct1[OF t2] f2])
  then have b: "executeCommand sample_tables projects True 9 [] (asc ''open nonexistent-id'') =
     Inr ([\<lparr> command = asc ''open nonexistent-id'', output' = ProjectNotFound,
             timestamp = 9 \<rparr>], [])"
    using n2 by (simp only: if_False)
  from a b show ?thesis by (intro conjI)
qed

text \<open>
  On the line \<open>open  lock-and-key\<close> (two spaces) the first argument is the empty piece.
  The lookup resolves the empty string (to the first project), and a project with the id
  \<open>lock-and-key\<close> exists, yet \<open>open\<close> prints its usage and the navigation callback is
  not called.
\<close>

theorem open_empty_argument_counterexample:
  "splitOn space (trim (asc ''open  lock-and-key'')) =
     [asc ''open'', [], asc ''lock-and-key'']
   \<and> findProject sample_tables projects [] = Some (projects ! 0)
   \<and> executeCommand sample_tables projects True 0 [] (asc ''open  lock-and-key'') =
       Inr ([\<lparr> command = asc ''open  lock-and-key'',
               output' = Usage (asc ''open <project-id>''), timestamp = 0 \<rparr>], [])"
proof -
  have s: "splitOn space (trim (asc ''open  lock-and-key'')) =
      [asc ''open'', [], asc ''lock-and-key'']"
    by (simp only: trim_open_eval open_pieces_eval)
  have f: "findProject sample_tables projects [] = Some (projects ! 0)"
    by (simp add: projects_def findProject_empty)
  have n: "trim (asc ''open  lock-and-key'') \<noteq> []"
    by (simp add: trim_open_eval) (simp add: asc_def)
  have e: "executeCommand sample_tables projects True 0 [] (asc ''open  lock-and-key'') =
      Inr ([\<lparr> command = asc ''open  lock-and-key'',
              output' = Usage (asc ''open <project-id>''), timestamp = 0 \<rparr>], [])"
    using executeCommand_pieces[OF n s, of sample_tables projects True 0 "[]"]
    by (simp add: open_pieces_eval dispatch_open trim_open_eval)
  from s f e show ?thesis by (intro conjI)
qed

text \<open>
  C5: the specification expects \<open>ls\<close> in the input after \<open>ls\<close>, \<open>help\<close>, previous
  twice and next once. The two presses of previous recall \<open>help\<close> and then \<open>ls\<close>;
  the press of next moves forward again, so the input ends as \<open>help\<close>.
\<close>

theorem history_recall:
  "run U ps nav [(t1, Type (asc ''ls'')), (t2, Press Enter), (t3, Type (asc ''help'')),
                 (t4, Press Enter), (t5, Press ArrowUp), (t6, Press ArrowUp),
                 (t7, Press ArrowDown)] (openCLI t0) =
     Inr (\<lparr> commandHistory =
              [\<lparr> command = asc ''welcome'', output' = Welcome, timestamp = t0 \<rparr>,
               \<lparr> command = asc ''ls'', output' = ProjectList ps (asc ''Projects''),
                 timestamp = t2 \<rparr>,
               \<lparr> command = asc ''help'', output' = HelpText, timestamp = t4 \<rparr>],
            currentInput = asc ''help'', commandIndex = 2 \<rparr>, [])
   \<and> run U ps nav [(t1, Type (asc ''ls'')), (t2, Press Enter), (t3, Type (asc ''help'')),
                 (t4, Press Enter), (t5, Press ArrowUp), (t6, Press ArrowUp)] (openCLI t0) =
     Inr (\<lparr> commandHistory =
              [\<lparr> command = asc ''welcome'', output' = Welcome, timestamp = t0 \<rparr>,
               \<lparr> command = asc ''ls'', output' = ProjectList ps (asc ''Projects''),
                 timestamp = t2 \<rparr>,
               \<lparr> command = asc ''help'', output' = HelpText, timestamp = t4 \<rparr>],
            currentInput = asc ''ls'', commandIndex = 1 \<rparr>, [])"
  by (simp add: openCLI_def onChange_def handleKeyDown_def executeCommand_def dispatch_def
      COMMANDS_def no_arg0_def trim_def string_eval)

theorem history_recall_witness:
  "run sample_tables projects True
     [(1, Type (asc ''ls'')), (2, Press Enter), (3, Type (asc ''help'')), (4, Press Enter),
      (5, Press ArrowUp), (6, Press ArrowUp), (7, Press ArrowDown)] (openCLI 0) =
     Inr (\<lparr> commandHistory =
              [\<lparr> command = asc ''welcome'', output' = Welcome, timestamp = 0 \<rparr>,
               \<lparr> command = asc ''ls'', output' = ProjectList projects (asc ''Projects''),
                 timestamp = 2 \<rparr>,
               \<lparr> command = asc ''help'', output' = HelpText, timestamp = 4 \<rparr>],
            currentInput = asc ''help'', commandIndex = 2 \<rparr>, [])"
  using history_recall[of sample_tables projects True 1 2 3 4 5 6 7 0] by (rule conjunct1)

theorem history_recall_counterexample:
  "(case run sample_tables projects True
       [(1, Type (asc ''ls'')), (2, Press Enter), (3, Type (asc ''help'')),
        (4, Press Enter), (5, Press ArrowUp), (6, Press ArrowUp), (7, Press ArrowDown)]
       (openCLI 0) of
      Inl e \<Rightarrow> [] | Inr (s, fx) \<Rightarrow> currentInput s) = asc ''help''
   \<and> asc ''help'' \<noteq> asc ''ls''"
  by (simp add: openCLI_def onChange_def handleKeyDown_def executeCommand_def dispatch_def
      COMMANDS_def no_arg0_def trim_def string_eval)

text \<open>
  C6: the specification has tokens separated by any run of white space. The code trims
  the line and splits it at each single space character: the pieces joined by one space
  give the trimmed line back, no piece contains a space, the first piece lower-cased is the
  command and all other pieces, empty ones included, are the arguments. So a line whose
  tokens are separated by exactly one space, with any white space around it, runs the
  command on exactly those tokens.
\<close>

theorem executeCommand_splits_at_single_spaces:
  "(trim input \<noteq> [] \<longrightarrow>
      (\<exists>c0 args0. splitOn space (trim input) = c0 # args0 \<and>
         join [space] (c0 # args0) = trim input \<and>
         (\<forall>t \<in> set (c0 # args0). space \<notin> set t) \<and>
         executeCommand U ps nav now h input =
           dispatch U ps nav now h (trim input) (toLowerCase U c0) args0))
   \<and> ((\<forall>t \<in> set (c # args). t \<noteq> [] \<and> space \<notin> set t) \<and>
       \<not> isWhiteSpace (hd c) \<and> \<not> isWhiteSpace (last (last (c # args))) \<and>
       (\<forall>ch \<in> set pre. isWhiteSpace ch) \<and> (\<forall>ch \<in> set post. isWhiteSpace ch) \<longrightarrow>
        executeCommand U ps nav now h (pre @ join [space] (c # args) @ post) =
          dispatch U ps nav now h (join [space] (c # args)) (toLowerCase U c) args)"
proof (intro conjI impI)
  assume ne: "trim input \<noteq> []"
  obtain c0 args0 where sp: "splitOn space (trim input) = c0 # args0"
    using splitOn_nonempty[of space "trim input"]
    by (cases "splitOn space (trim input)") auto
  have j: "join [space] (c0 # args0) = trim input"
    using join_splitOn[of space "trim input"] sp by simp
  have p: "\<forall>t \<in> set (c0 # args0). space \<notin> set t"
    using splitOn_pieces[of _ space "trim input"] sp by metis
  have e: "executeCommand U ps nav now h input =
      dispatch U ps nav now h (trim input) (toLowerCase U c0) args0"
    using ne sp by (rule executeCommand_pieces)
  from sp j p e
  show "\<exists>c0 args0. splitOn space (trim input) = c0 # args0 \<and>
         join [space] (c0 # args0) = trim input \<and>
         (\<forall>t \<in> set (c0 # args0). space \<notin> set t) \<and>
         executeCommand U ps nav now h input =
           dispatch U ps nav now h (trim input) (toLowerCase U c0) args0"
    by blast
next
  assume a: "(\<forall>t \<in> set (c # args). t \<noteq> [] \<and> space \<notin> set t) \<and>
       \<not> isWhiteSpace (hd c) \<and> \<not> isWhiteSpace (last (last (c # args))) \<and>
       (\<forall>ch \<in> set pre. isWhiteSpace ch) \<and> (\<forall>ch \<in> set post. isWhiteSpace ch)"
  let ?s = "join [space] (c # args)"
  have tok: "\<forall>t \<in> set (c # args). t \<noteq> []" using a by blast
  have nosp: "\<forall>t \<in> set (c # args). space \<notin> set t" using a by blast
  have ne: "?s \<noteq> []" using tok by (intro join_tokens_nonempty) simp_all
  have "hd ?s = hd c" using tok by (simp add: hd_join)
  then have h1: "\<not> isWhiteSpace (hd ?s)" using a by simp
  have "last ?s = last (last (c # args))" using tok by (intro last_join) simp_all
  then have h2: "\<not> isWhiteSpace (last ?s)" using a by metis
  have t: "trim (pre @ ?s @ post) = ?s"
    using ne h1 h2 a by (intro trim_wrap) simp_all
  have s: "splitOn space ?s = c # args"
    using splitOn_join[of "c # args" space] nosp by simp
  show "executeCommand U ps nav now h (pre @ ?s @ post) =
          dispatch U ps nav now h ?s (toLowerCase U c) args"
    using ne by (simp add: executeCommand_def t s del: join.simps)
qed

theorem executeCommand_splits_at_single_spaces_witness:
  "executeCommand sample_tables projects True 0 [] (asc ''cat  x'') =
     dispatch sample_tables projects True 0 [] (asc ''cat  x'') (asc ''cat'') [[], asc ''x'']
   \<and> executeCommand sample_tables projects True 0 []
       ([9] @ asc ''CAT hogwarts extra'' @ [0xA0, 32]) =
     dispatch sample_tables projects True 0 [] (asc ''CAT hogwarts extra'') (asc ''cat'')
       [asc ''hogwarts'', asc ''extra'']"
  using executeCommand_splits_at_single_spaces[of "asc ''cat  x''" sample_tables projects
      True 0 "[]" "asc ''CAT''" "[asc ''hogwarts'', asc ''extra'']" "[9]" "[0xA0, 32]"]
  by (simp add: trim_def string_eval)

text \<open>
  With two spaces \<open>cat\<close> gets an empty first argument and prints its usage; with a tab
  the whole line is taken as the command name.
\<close>

theorem whitespace_tokenizing_counterexample:
  "executeCommand sample_tables projects True 0 [] (asc ''cat hogwarts'') =
     Inr ([\<lparr> command = asc ''cat hogwarts'', output' = ProjectDetails (projects ! 7),
             timestamp = 0 \<rparr>], [])
   \<and> executeCommand sample_tables projects True 0 [] (asc ''cat  hogwarts'') =
     Inr ([\<lparr> command = asc ''cat  hogwarts'', output' = Usage (asc ''cat <project-id>''),
             timestamp = 0 \<rparr>], [])
   \<and> executeCommand sample_tables projects True 0 [] (asc ''cat'' @ [9] @ asc ''hogwarts'') =
     Inr ([\<lparr> command = asc ''cat'' @ [9] @ asc ''hogwarts'',
             output' = CommandNotFound (asc ''cat'' @ [9] @ asc ''hogwarts''),
             timestamp = 0 \<rparr>], [])"
proof -
  have f: "findProject sample_tables projects (asc ''hogwarts'') = Some (projects ! 7)"
    by (simp add: findProject_def catalog_eval string_eval)
  have g: "findProject sample_tables projects
      [104, 111, 103, 119, 97, 114, 116, 115] = Some (projects ! 7)"
    using f by (simp add: asc_def)
  show ?thesis
    by (simp add: executeCommand_def trim_def dispatch_def COMMANDS_def no_arg0_def
        string_eval g Let_def)
qed

text \<open>
  C7: the specification has \<open>filter d\<close> list the projects whose domain equals the token
  up to case. That holds for the tokens of ASCII characters: the listed projects are
  those whose domain equals the token up to case, two such tokens equal up to case give
  the same output, in particular \<open>security\<close> and \<open>Security\<close>, also as input lines of
  the interpreter.
\<close>

theorem filter_command_case_insensitive:
  "(ascii d \<and> d \<noteq> [] \<longrightarrow>
      listed (execute U ps Filter (d # rest)) =
        filter (\<lambda>p. toLowerCase U (domain_str (domain p)) = toLowerCase U d) ps)
   \<and> (ascii d \<and> ascii d' \<and> toLowerCase U d = toLowerCase U d' \<longrightarrow>
        execute U ps Filter (d # rest) = execute U ps Filter (d' # rest'))
   \<and> execute U ps Filter [asc ''security''] = execute U ps Filter [asc ''Security'']
   \<and> (\<exists>out. execute U ps Filter [asc ''Security''] = Some out \<and>
        executeCommand U ps nav now h (asc ''filter security'') =
          Inr (h @ [\<lparr> command = asc ''filter security'', output' = out,
                      timestamp = now \<rparr>], []) \<and>
        executeCommand U ps nav now h (asc ''filter Security'') =
          Inr (h @ [\<lparr> command = asc ''filter Security'', output' = out,
                      timestamp = now \<rparr>], []))"
proof (intro conjI impI)
  assume a: "ascii d \<and> d \<noteq> []"
  have n: "toLowerCase U (toUpperCase U (take (Suc 0) d) @ toLowerCase U (drop (Suc 0) d)) =
      toLowerCase U d"
    using toLowerCase_normalise[of d U] a by simp
  from a show "listed (execute U ps Filter (d # rest)) =
        filter (\<lambda>p. toLowerCase U (domain_str (domain p)) = toLowerCase U d) ps"
    by (simp add: Let_def n)
next
  assume e: "ascii d \<and> ascii d' \<and> toLowerCase U d = toLowerCase U d'"
  then have ad: "ascii d" and ad': "ascii d'"
    and eq: "toLowerCase U d = toLowerCase U d'" by simp_all
  have "map lowerASCII d = map lowerASCII d'"
    using eq by (simp only: toLowerCase_ascii[OF ad] toLowerCase_ascii[OF ad'])
  then have "length d = length d'" by (metis length_map)
  then have "(d = []) = (d' = [])" by auto
  moreover have "toUpperCase U (take (Suc 0) d) @ toLowerCase U (drop (Suc 0) d) =
      toUpperCase U (take (Suc 0) d') @ toLowerCase U (drop (Suc 0) d')"
    using normalise_cong[OF ad ad' eq] by simp
  ultimately show "execute U ps Filter (d # rest) = execute U ps Filter (d' # rest')"
    by (simp add: Let_def)
next
  show "execute U ps Filter [asc ''security''] = execute U ps Filter [asc ''Security'']"
    by (simp add: Let_def string_eval)
next
  show "\<exists>out. execute U ps Filter [asc ''Security''] = Some out \<and>
        executeCommand U ps nav now h (asc ''filter security'') =
          Inr (h @ [\<lparr> command = asc ''filter security'', output' = out,
                      timestamp = now \<rparr>], []) \<and>
        executeCommand U ps nav now h (asc ''filter Security'') =
          Inr (h @ [\<lparr> command = asc ''filter Security'', output' = out,
                      timestamp = now \<rparr>], [])"
    by (simp add: executeCommand_def dispatch_def COMMANDS_def no_arg0_def trim_def
        string_eval Let_def)
qed

theorem filter_command_case_insensitive_witness:
  "map id' (listed (execute sample_tables projects Filter [asc ''SECURITY''])) =
     map asc [''lock-and-key'', ''horizonsec'']
   \<and> execute sample_tables projects Filter [asc ''SECURITY''] =
       execute sample_tables projects Filter [asc ''security'', asc ''x'']"
proof -
  have h: "ascii (asc ''SECURITY'') \<and> asc ''SECURITY'' \<noteq> []"
    by (simp add: string_eval)
  have l: "ascii (asc ''SECURITY'') \<and> ascii (asc ''security'') \<and>
      toLowerCase sample_tables (asc ''SECURITY'') =
      toLowerCase sample_tables (asc ''security'')"
    by (simp add: string_eval)
  have m: "map id' (filter (\<lambda>p. toLowerCase sample_tables (domain_str (domain p)) =
      toLowerCase sample_tables (asc ''SECURITY'')) projects) =
      map asc [''lock-and-key'', ''horizonsec'']"
    by (simp add: catalog_eval string_eval)
  note t = filter_command_case_insensitive[of "asc ''SECURITY''" sample_tables projects "[]"
      "asc ''security''" "[asc ''x'']" True 0 "[]"]
  have a: "listed (execute sample_tables projects Filter [asc ''SECURITY'']) =
      filter (\<lambda>p. toLowerCase sample_tables (domain_str (domain p)) =
                 toLowerCase sample_tables (asc ''SECURITY'')) projects"
    by (rule mp[OF conjunct1[OF t] h])
  have b: "execute sample_tables projects Filter [asc ''SECURITY''] =
      execute sample_tables projects Filter [asc ''security'', asc ''x'']"
    by (rule mp[OF conjunct1[OF conjunct2[OF t]] l])
  show ?thesis using a b m by (simp only:) 
qed

text \<open>
  Beyond ASCII the general clause fails. The capital of the long s (U+017F) is the ASCII
  letter S, so the token spelt long s + \<open>ecurity\<close> lists the Security projects although
  its lower case is not \<open>security\<close>; and the token \<open>re\<close> + long s + \<open>earch\<close> has the
  same capitals as \<open>research\<close> but lists nothing, while \<open>research\<close> lists one project.
\<close>

theorem filter_long_s_counterexample:
  "map id' (listed (execute sample_tables projects Filter [0x17F # asc ''ecurity''])) =
     map asc [''lock-and-key'', ''horizonsec'']
   \<and> toLowerCase sample_tables (0x17F # asc ''ecurity'') \<noteq>
       toLowerCase sample_tables (asc ''Security'')
   \<and> toUpperCase sample_tables (asc ''re'' @ 0x17F # asc ''earch'') =
       toUpperCase sample_tables (asc ''research'')
   \<and> listed (execute sample_tables projects Filter [asc ''re'' @ 0x17F # asc ''earch'']) = []
   \<and> map id' (listed (execute sample_tables projects Filter [asc ''research''])) =
       [asc ''the-data-packet'']"
  by (simp add: Let_def catalog_eval sample_eval string_eval)

text \<open>
  C8: \<open>clear\<close> replaces the history by the empty history and adds no entry; \<open>help\<close> run
  on that empty history appends its output, so the history then has exactly one entry.
\<close>

theorem clear_then_help:
  "executeCommand U ps nav now h (asc ''clear'') = Inr ([], [])
   \<and> executeCommand U ps nav now' [] (asc ''help'') =
       Inr ([\<lparr> command = asc ''help'', output' = HelpText, timestamp = now' \<rparr>], [])
   \<and> (case executeCommand U ps nav now' [] (asc ''help'') of
         Inr (h', fx) \<Rightarrow> length h' = 1 | Inl e \<Rightarrow> False)"
  by (simp add: executeCommand_def dispatch_def COMMANDS_def trim_def string_eval)

theorem clear_then_help_witness:
  "executeCommand sample_tables projects True 5 (commandHistory (openCLI 0)) (asc ''clear'') =
     Inr ([], [])
   \<and> executeCommand sample_tables projects True 6 [] (asc ''help'') =
       Inr ([\<lparr> command = asc ''help'', output' = HelpText, timestamp = 6 \<rparr>], [])"
  using clear_then_help[of sample_tables projects True 5 "commandHistory (openCLI 0)" 6]
  by simp

text \<open>
  C9: the specification has every input line end with a message in the history and
  nothing thrown. The line \<open>constructor\<close> is not one of the eight commands, yet the
  lookup in \<open>COMMANDS\<close> finds the inherited member, the unknown-command branch is
  skipped, and the call of its missing \<open>execute\<close> throws: no message is appended.
\<close>

theorem constructor_throws:
  "executeCommand U ps nav now h (asc ''constructor'') = Inl TypeError"
  by (simp add: executeCommand_def dispatch_def COMMANDS_def trim_def string_eval
      no_arg0_def)

text \<open>
  C10: a line that is empty or holds only white space changes nothing: the history is
  returned as it was and no prop is called; pressing Enter on such a line keeps the
  history and only empties the input and resets the recall cursor.
\<close>

theorem blank_line_noop:
  assumes "\<forall>ch \<in> set input. isWhiteSpace ch"
  shows "executeCommand U ps nav now h input = Inr (h, [])
    \<and> (currentInput s = input \<longrightarrow>
         handleKeyDown U ps nav now Enter s =
           Inr (s\<lparr> currentInput := [], commandIndex := - 1 \<rparr>, []))"
  using assms by (simp add: executeCommand_def handleKeyDown_def trim_blank)

theorem blank_line_noop_witness:
  "executeCommand sample_tables projects True 3 (commandHistory (openCLI 0))
     [32, 32, 9, 0xA0] = Inr (commandHistory (openCLI 0), [])
   \<and> handleKeyDown sample_tables projects True 3 Enter
       (onChange [32, 32, 9, 0xA0] (openCLI 0)) = Inr (openCLI 0, [])"
  using blank_line_noop[of "[32, 32, 9, 0xA0]" sample_tables projects True 3
      "commandHistory (openCLI 0)" "onChange [32, 32, 9, 0xA0] (openCLI 0)"]
  by (simp add: string_eval onChange_def openCLI_def)

end
